theory Spec2Isabelle
  imports Main "HOL-Library.Sublist" "HOL-Library.List_Lexorder" "HOL-Library.Multiset"
begin

section \<open>Python text and containers\<close>

text \<open>
  A Python \<open>str\<close> is a sequence of Unicode code points: slicing and \<open>len\<close> count code
  points. It is modelled as a list of code-point numbers; \<open>S\<close> turns an ASCII literal into
  such a list. The substring test \<open>needle in text\<close> is \<^const>\<open>sublist\<close>, and the
  comparison of two \<open>str\<close> values is the lexicographic order of the lists.
\<close>

type_synonym pystr = "nat list"

definition S :: "string \<Rightarrow> pystr" where
  "S s = map of_char s"

text \<open>\<open>str(n)\<close> for a non-negative integer: its decimal digits.\<close>

function str_nat :: "nat \<Rightarrow> pystr" where
  "str_nat n = (if n < 10 then [48 + n] else str_nat (n div 10) @ [48 + n mod 10])"
  by pat_completeness auto
termination
  by (relation "measure (\<lambda>n. n)") auto

declare str_nat.simps [simp del]

text \<open>\<open>sep.join(parts)\<close>.\<close>

fun join :: "pystr \<Rightarrow> pystr list \<Rightarrow> pystr" where
  "join sep [] = []"
| "join sep [x] = x"
| "join sep (x # y # ys) = x @ sep @ join sep (y # ys)"

text \<open>
  \<open>text.lower()\<close>. The letters A to Z are mapped to a to z. Every other code point is
  left as it is: Python lowers some non-ASCII letters too, but none of them to one of the
  ASCII letters alone, so the occurrences of an ASCII word in the lowered text are the same.
\<close>

definition lower_char :: "nat \<Rightarrow> nat" where
  "lower_char c = (if 65 \<le> c \<and> c \<le> 90 then c + 32 else c)"

definition lower :: "pystr \<Rightarrow> pystr" where
  "lower s = map lower_char s"

text \<open>\<open>xs[-n:]\<close>: the last \<open>n\<close> elements, the whole list when it is shorter.\<close>

definition slice_last :: "nat \<Rightarrow> 'a list \<Rightarrow> 'a list" where
  "slice_last n xs = drop (length xs - n) xs"

text \<open>\<open>enumerate(xs, start)\<close>.\<close>

definition enumerate_from :: "nat \<Rightarrow> 'a list \<Rightarrow> (nat \<times> 'a) list" where
  "enumerate_from start xs = zip [start ..< start + length xs] xs"

text \<open>
  A Python \<open>dict\<close> keeps its keys in insertion order, and \<open>items()\<close> lists them in that
  order: it is an association list. Assigning to a key that is present keeps its place.
\<close>

definition dict_get :: "('k \<times> 'v) list \<Rightarrow> 'k \<Rightarrow> 'v \<Rightarrow> 'v" where
  "dict_get m k dflt = (case map_of m k of None \<Rightarrow> dflt | Some v \<Rightarrow> v)"

fun dict_set :: "('k \<times> 'v) list \<Rightarrow> 'k \<Rightarrow> 'v \<Rightarrow> ('k \<times> 'v) list" where
  "dict_set [] k v = [(k, v)]"
| "dict_set ((k', v') # m) k v =
     (if k' = k then (k', v) # m else (k', v') # dict_set m k v)"

text \<open>
  \<open>sorted(xs, key=f, reverse=True)\<close>: a stable sort in descending order of the key,
  elements of equal key staying in their original order. Python obtains it by reversing,
  sorting stably in ascending order, and reversing again.
\<close>

definition sorted_reverse :: "('a \<Rightarrow> 'k::linorder) \<Rightarrow> 'a list \<Rightarrow> 'a list" where
  "sorted_reverse f xs = rev (sort_key f (rev xs))"

section \<open>The data model\<close>

text \<open>
  The classes \<open>Decision\<close>, \<open>Constraint\<close>, \<open>Alternative\<close> and \<open>MemoryLayer\<close> are imported by
  \<open>main.py\<close> from the module \<open>decision_memory\<close>; their fields are the ones \<open>main.py\<close>
  passes to the constructors and reads back. \<open>main.py\<close> fills \<open>category\<close> and \<open>severity\<close>
  from two fixed selections and reads \<open>created_at\<close> as an ISO timestamp.
\<close>

datatype MemoryLayer = PRIVATE | SHAREABLE

record Constraint =
  category :: pystr
  c_description :: pystr
  severity :: pystr

record Alternative =
  a_option :: pystr
  pros :: "pystr list"
  cons :: "pystr list"
  rejected_reason :: pystr

record Decision =
  decision_id :: pystr
  title :: pystr
  description :: pystr
  goal :: pystr
  constraints :: "Constraint list"
  alternatives :: "Alternative list"
  final_choice :: pystr
  reasoning :: pystr
  expected_outcome :: "pystr option"
  memory_layer :: MemoryLayer
  tags :: "pystr list"
  related_decisions :: "pystr list"
  outcome_status :: "pystr option"
  reflection :: "pystr option"
  created_at :: pystr

text \<open>The two selections of the recording form (\<open>render_record_decision\<close>).\<close>

definition categories :: "pystr list" where
  "categories = map S [''Time'', ''Cost'', ''Risk'', ''Resource'', ''Technical'',
     ''Emotional'', ''Other'']"

definition severities :: "pystr list" where
  "severities = map S [''Low'', ''Medium'', ''High'']"

definition valid_constraint :: "Constraint \<Rightarrow> bool" where
  "valid_constraint c \<longleftrightarrow> category c \<in> set categories \<and> severity c \<in> set severities"

section \<open>The summaries built for the chat service\<close>

text \<open>
  \<open>_get_decisions_summary\<close>: the loop over \<open>enumerate(decisions[-5:], 1)\<close> appends four
  lines per decision to \<open>summary_lines\<close>.
\<close>

definition decision_lines :: "nat \<Rightarrow> Decision \<Rightarrow> pystr list" where
  "decision_lines i decision =
     [S ''\<newline>Decision '' @ str_nat i @ S '': '' @ title decision,
      S ''Goal: '' @ goal decision,
      S ''Choice: '' @ final_choice decision,
      S ''Reasoning: '' @ take 200 (reasoning decision) @ S ''...'']"

fun summary_loop :: "pystr list \<Rightarrow> (nat \<times> Decision) list \<Rightarrow> pystr list" where
  "summary_loop summary_lines [] = summary_lines"
| "summary_loop summary_lines ((i, decision) # rest) =
     summary_loop (summary_lines @ decision_lines i decision) rest"

definition summary_lines :: "Decision list \<Rightarrow> pystr list" where
  "summary_lines decisions =
     summary_loop [S ''Total decisions: '' @ str_nat (length decisions) @ S ''\<newline>'']
       (enumerate_from 1 (slice_last 5 decisions))"

definition get_decisions_summary :: "Decision list \<Rightarrow> pystr" where
  "get_decisions_summary decisions =
     (if decisions = [] then S ''No decisions recorded yet.''
      else join (S ''\<newline>'') (summary_lines decisions))"

text \<open>
  \<open>_get_constraints_summary\<close>. The two nested loops count, in the dict
  \<open>constraint_patterns\<close>, the constraints under the key text built from their category
  and severity.
\<close>

definition constraint_key :: "Constraint \<Rightarrow> pystr" where
  "constraint_key constraint =
     category constraint @ S '' (Severity: '' @ severity constraint @ S '')''"

definition count_pattern :: "Constraint \<Rightarrow> (pystr \<times> nat) list \<Rightarrow> (pystr \<times> nat) list" where
  "count_pattern constraint constraint_patterns =
     (let key = constraint_key constraint
      in dict_set constraint_patterns key (dict_get constraint_patterns key 0 + 1))"

definition constraint_patterns :: "Decision list \<Rightarrow> (pystr \<times> nat) list" where
  "constraint_patterns decisions =
     fold (\<lambda>decision patterns. fold count_pattern (constraints decision) patterns)
       decisions []"

text \<open>The bullet sign of the pattern lines is the code point U+2022.\<close>

definition bullet :: pystr where
  "bullet = [8226]"

definition pattern_line :: "pystr \<times> nat \<Rightarrow> pystr" where
  "pattern_line item =
     (case item of (constraint, cnt) \<Rightarrow>
        bullet @ S '' '' @ constraint @ S '': appears '' @ str_nat cnt @ S '' times'')"

definition get_constraints_summary :: "Decision list \<Rightarrow> pystr" where
  "get_constraints_summary decisions =
     (if decisions = [] then S ''No constraints recorded yet.''
      else let patterns = constraint_patterns decisions
        in if patterns = [] then S ''No constraint patterns found.''
           else join (S ''\<newline>'')
             (fold (\<lambda>item summary_lines. summary_lines @ [pattern_line item])
                (take 5 (sorted_reverse snd patterns))
                [S ''Your most common constraints:'']))"

section \<open>The decision store and the chat context\<close>

text \<open>
  Modelled from the spec: the store's listing operation \<open>get_all_decisions\<close> of the
  module \<open>decision_memory\<close>, which is not among the sources. The spec: it "returns all
  decisions, most-recently-created first, optionally restricted to one privacy layer";
  the order is "by \<open>created_at\<close> descending, ties broken by insertion order". The store is
  the list of its decisions in insertion order.
\<close>

type_synonym DecisionMemoryStore = "Decision list"

definition get_all_decisions :: "DecisionMemoryStore \<Rightarrow> MemoryLayer option \<Rightarrow> Decision list" where
  "get_all_decisions store layer =
     sorted_reverse created_at
       (case layer of None \<Rightarrow> store
        | Some l \<Rightarrow> filter (\<lambda>d. memory_layer d = l) store)"

text \<open>
  \<open>render_ai_insights\<close>, as far as the chat context goes: the result is the pair of
  texts handed to \<open>set_user_context\<close>, or \<open>None\<close> when the page sets no context (no
  chatbot, or no decision in the store).
\<close>

definition render_ai_insights :: "bool \<Rightarrow> DecisionMemoryStore \<Rightarrow> (pystr \<times> pystr) option" where
  "render_ai_insights ai_chatbot store =
     (if \<not> ai_chatbot then None
      else let decisions = get_all_decisions store None
        in if decisions = [] then None
           else Some (get_decisions_summary decisions, get_constraints_summary decisions))"

section \<open>The reflection service\<close>

text \<open>
  \<open>render_decision_detail\<close> builds one text for the reflection service from the decision
  on display and the reflection typed into the text area (\<open>new_reflection\<close>). The text is
  an f-string over nine labelled lines, each indented by eight blanks; an absent
  \<open>expected_outcome\<close> is formatted as \<open>None\<close>.
\<close>

definition format_optional :: "pystr option \<Rightarrow> pystr" where
  "format_optional v = (case v of None \<Rightarrow> S ''None'' | Some s \<Rightarrow> s)"

definition decision_history_text :: "Decision \<Rightarrow> pystr \<Rightarrow> pystr" where
  "decision_history_text decision new_reflection =
     S ''\<newline>        Decision: '' @ title decision @
     S ''\<newline>        Goal: '' @ goal decision @
     S ''\<newline>        Description: '' @ description decision @
     S ''\<newline>        Final Choice: '' @ final_choice decision @
     S ''\<newline>        Reasoning: '' @ reasoning decision @
     S ''\<newline>        Expected Outcome: '' @ format_optional (expected_outcome decision) @
     S ''\<newline>        Constraints: '' @
       join (S '', '') (map c_description (constraints decision)) @
     S ''\<newline>        Alternatives Considered: '' @
       join (S '', '') (map a_option (alternatives decision)) @
     S ''\<newline>        Reflection: '' @ new_reflection @
     S ''\<newline>        ''"

text \<open>
  \<open>GeminiReflectionAI\<close> (\<open>reflection_gemini.py\<close>). The constructor reads the API key from
  the environment when it is enabled and keeps it when it is not empty. The calls into
  the \<open>genai\<close> library are parameters: each of the three steps inside the \<open>try\<close> block
  returns a value or raises, which is \<open>Inl\<close> of what is raised. What is raised is either
  an instance of Python's \<open>Exception\<close>, kept with its message \<open>str(e)\<close>, or an exception
  outside that class (\<open>KeyboardInterrupt\<close>, \<open>SystemExit\<close>, \<open>GeneratorExit\<close> and other
  direct subclasses of \<open>BaseException\<close>), kept with its class name. The handler
  \<open>except Exception\<close> catches the first kind only; the second kind leaves \<open>reflect\<close>.
\<close>

datatype exception = Exception pystr | BaseExceptionOnly pystr

record ('m, 'r) genai =
  GenerativeModel :: "pystr \<Rightarrow> exception + 'm"
  generate_content :: "'m \<Rightarrow> pystr \<Rightarrow> exception + 'r"
  response_text :: "'r \<Rightarrow> exception + pystr"

record GeminiReflectionAI =
  enabled :: bool
  api_key :: "pystr option"

definition truthy :: "pystr option \<Rightarrow> bool" where
  "truthy v = (case v of None \<Rightarrow> False | Some s \<Rightarrow> s \<noteq> [])"

definition GeminiReflectionAI_init :: "bool \<Rightarrow> pystr option \<Rightarrow> GeminiReflectionAI" where
  "GeminiReflectionAI_init enabled' getenv_key =
     \<lparr>enabled = enabled',
      api_key = (if enabled' \<and> truthy getenv_key then getenv_key else None)\<rparr>"

definition try_body :: "('m, 'r) genai \<Rightarrow> pystr \<Rightarrow> exception + pystr" where
  "try_body api decision_history_text' =
     (case GenerativeModel api (S ''gemini-2.5-flash'') of
        Inl e \<Rightarrow> Inl e
      | Inr model \<Rightarrow>
          (case generate_content api model decision_history_text' of
             Inl e \<Rightarrow> Inl e
           | Inr response \<Rightarrow> response_text api response))"

definition reflect ::
  "('m, 'r) genai \<Rightarrow> GeminiReflectionAI \<Rightarrow> pystr \<Rightarrow> exception + pystr" where
  "reflect api self decision_history_text' =
     (if \<not> enabled self \<or> \<not> truthy (api_key self)
      then Inr (S ''Reflection AI disabled or API key missing.'')
      else (case try_body api decision_history_text' of
              Inr text \<Rightarrow> Inr text
            | Inl (Exception msg) \<Rightarrow> Inr (S ''Reflection AI failed: '' @ msg)
            | Inl (BaseExceptionOnly name) \<Rightarrow> Inl (BaseExceptionOnly name)))"

text \<open>
  What \<open>render_decision_detail\<close> does with the returned text: either it shows it as
  Gemini's insight and offers to add it to the reflection (the second component is the
  reflection the button would store), or it shows it as an error.
\<close>

datatype reflection_panel = Insight pystr pystr | ErrorShown pystr

definition show_ai_reflection :: "pystr \<Rightarrow> pystr \<Rightarrow> reflection_panel" where
  "show_ai_reflection new_reflection ai_reflection =
     (if \<not> sublist (S ''failed'') (lower ai_reflection)
      then Insight ai_reflection
             (new_reflection @ S ''\<newline>\<newline>**AI Insight**: '' @ ai_reflection)
      else ErrorShown ai_reflection)"

definition get_gemini_reflection ::
  "('m, 'r) genai \<Rightarrow> pystr option \<Rightarrow> Decision \<Rightarrow> pystr \<Rightarrow> exception + reflection_panel" where
  "get_gemini_reflection api getenv_key decision new_reflection =
     (let reflection_ai = GeminiReflectionAI_init True getenv_key
      in case reflect api reflection_ai (decision_history_text decision new_reflection) of
           Inl e \<Rightarrow> Inl e
         | Inr ai_reflection \<Rightarrow> Inr (show_ai_reflection new_reflection ai_reflection))"

section \<open>The frequency table in the specification's words\<close>

text \<open>
  The specification describes the pattern table as keyed by the pair of category and
  severity, listed in first-encountered order. These three definitions word that
  description; the theorem on \<open>_get_constraints_summary\<close> compares the dict computed by
  the code with them.
\<close>

fun first_encountered :: "'a list \<Rightarrow> 'a list" where
  "first_encountered [] = []"
| "first_encountered (x # xs) = x # removeAll x (first_encountered xs)"

definition key_text :: "pystr \<times> pystr \<Rightarrow> pystr" where
  "key_text p = (case p of (cat, sev) \<Rightarrow> cat @ S '' (Severity: '' @ sev @ S '')'')"

definition patterns_of :: "Decision list \<Rightarrow> (pystr \<times> pystr) list" where
  "patterns_of decisions =
     map (\<lambda>c. (category c, severity c)) (concat (map constraints decisions))"

section \<open>Sample values\<close>

text \<open>Concrete decisions, stores and a concrete service, for the instances below.\<close>

definition sample_decision ::
  "pystr \<Rightarrow> pystr \<Rightarrow> MemoryLayer \<Rightarrow> pystr \<Rightarrow> Constraint list \<Rightarrow> Decision" where
  "sample_decision name created layer why cs =
     \<lparr>decision_id = name, title = name, description = S ''about'', goal = S ''aim'',
      constraints = cs, alternatives = [], final_choice = S ''pick'', reasoning = why,
      expected_outcome = None, memory_layer = layer, tags = [], related_decisions = [],
      outcome_status = None, reflection = None, created_at = created\<rparr>"

definition failing_api :: "(unit, unit) genai" where
  "failing_api =
     \<lparr>GenerativeModel = (\<lambda>name. Inr ()),
      generate_content = (\<lambda>model text. Inl (Exception (S ''quota exceeded''))),
      response_text = (\<lambda>response. Inr [])\<rparr>"


definition saving_decision :: Decision where
  "saving_decision =
     \<lparr>decision_id = S ''d1'', title = S ''Car'', description = S ''buy or lease'',
      goal = S ''commute'',
      constraints = [\<lparr>category = S ''Cost'', c_description = S ''budget'', severity = S ''High''\<rparr>,
                     \<lparr>category = S ''Time'', c_description = S ''one month'', severity = S ''Low''\<rparr>],
      alternatives = [\<lparr>a_option = S ''lease'', pros = [], cons = [], rejected_reason = S ''fees''\<rparr>,
                      \<lparr>a_option = S ''bus'', pros = [], cons = [], rejected_reason = S ''slow''\<rparr>],
      final_choice = S ''buy'', reasoning = S ''cheaper'',
      expected_outcome = Some (S ''save''), memory_layer = SHAREABLE, tags = [],
      related_decisions = [], outcome_status = None, reflection = None,
      created_at = S ''2026-01-01T09:00:00''\<rparr>"

definition six_decisions :: "Decision list" where
  "six_decisions =
     [sample_decision (S ''Alpha'') (S ''2026-01-06T09:00:00'') SHAREABLE (S ''ok'') [],
      sample_decision (S ''Bravo'') (S ''2026-01-05T09:00:00'') SHAREABLE (S ''ok'') [],
      sample_decision (S ''Charlie'') (S ''2026-01-04T09:00:00'') SHAREABLE (S ''ok'') [],
      sample_decision (S ''Delta'') (S ''2026-01-03T09:00:00'') SHAREABLE (S ''ok'') [],
      sample_decision (S ''Echo'') (S ''2026-01-02T09:00:00'') SHAREABLE (S ''ok'') [],
      sample_decision (S ''Foxtrot'') (S ''2026-01-01T09:00:00'') SHAREABLE (S ''ok'') []]"

definition store_shared :: DecisionMemoryStore where
  "store_shared =
     [sample_decision (S ''Alpha'') (S ''2026-01-01T09:00:00'') SHAREABLE (S ''ok'') []]"

definition store_mixed :: DecisionMemoryStore where
  "store_mixed =
     [sample_decision (S ''Alpha'') (S ''2026-01-01T09:00:00'') SHAREABLE (S ''ok'') [],
      sample_decision (S ''Salary'') (S ''2026-01-02T09:00:00'') PRIVATE (S ''secret'')
        [\<lparr>category = S ''Cost'', c_description = S ''debt'', severity = S ''High''\<rparr>]]"

definition sample_constraint :: "string \<Rightarrow> string \<Rightarrow> Constraint" where
  "sample_constraint cat sev =
     \<lparr>category = S cat, c_description = S ''limit'', severity = S sev\<rparr>"

definition pattern_decisions :: "Decision list" where
  "pattern_decisions =
     [sample_decision (S ''Alpha'') (S ''2026-01-02T09:00:00'') SHAREABLE (S ''ok'')
        [sample_constraint ''Time'' ''High'', sample_constraint ''Cost'' ''Low'',
         sample_constraint ''Time'' ''High''],
      sample_decision (S ''Bravo'') (S ''2026-01-01T09:00:00'') SHAREABLE (S ''ok'')
        [sample_constraint ''Risk'' ''Medium'', sample_constraint ''Cost'' ''Low'',
         sample_constraint ''Risk'' ''Medium'', sample_constraint ''Cost'' ''Low'',
         sample_constraint ''Other'' ''Low'', sample_constraint ''Technical'' ''High'',
         sample_constraint ''Emotional'' ''Low'']]"

section \<open>The decisions summary\<close>

lemmas summary_eval =
  get_decisions_summary_def summary_lines_def enumerate_from_def slice_last_def
  decision_lines_def str_nat.simps upt_rec sample_decision_def S_def

text \<open>
  C8. \<open>_get_decisions_summary\<close> applied to the empty sequence of decisions returns the
  fixed placeholder \<open>No decisions recorded yet.\<close>, which is not the empty string.
\<close>

theorem C8_decisions_summary_empty:
  "get_decisions_summary [] = S ''No decisions recorded yet.''
   \<and> get_decisions_summary [] \<noteq> []"
  by (simp add: get_decisions_summary_def S_def)

text \<open>
  C2. The summary is built from \<open>decisions[-5:]\<close>, the last five entries of the list it
  is given. On a list of six decisions ordered most recently created first, which is how
  the store lists them, the summary therefore holds the second to the sixth decision,
  the five least recently created ones, and the most recent decision (Alpha) does not
  occur in it. Each decision that is included is shown with its title, goal, final
  choice and reasoning excerpt.
\<close>

theorem C2_summary_of_six:
  "sorted_wrt (\<lambda>a b. created_at b < created_at a) six_decisions
   \<and> get_all_decisions (rev six_decisions) None = six_decisions
   \<and> get_decisions_summary six_decisions =
       S ''Total decisions: 6\<newline>\<newline>\<newline>Decision 1: Bravo\<newline>Goal: aim\<newline>Choice: pick\<newline>Reasoning: ok...\<newline>\<newline>Decision 2: Charlie\<newline>Goal: aim\<newline>Choice: pick\<newline>Reasoning: ok...\<newline>\<newline>Decision 3: Delta\<newline>Goal: aim\<newline>Choice: pick\<newline>Reasoning: ok...\<newline>\<newline>Decision 4: Echo\<newline>Goal: aim\<newline>Choice: pick\<newline>Reasoning: ok...\<newline>\<newline>Decision 5: Foxtrot\<newline>Goal: aim\<newline>Choice: pick\<newline>Reasoning: ok...''
   \<and> \<not> sublist (title (hd six_decisions)) (get_decisions_summary six_decisions)"
  by (simp add: six_decisions_def summary_eval get_all_decisions_def sorted_reverse_def
        sublist_Cons_right)

subsection \<open>The lines of the summary\<close>

lemma summary_loop_concat:
  "summary_loop acc xs = acc @ concat (map (\<lambda>(i, d). decision_lines i d) xs)"
  by (induction acc xs rule: summary_loop.induct) auto

lemma concat_nth4:
  "\<forall>x\<in>set xss. length x = 4 \<Longrightarrow> k < length xss \<Longrightarrow> j < 4 \<Longrightarrow>
   concat xss ! (4 * k + j) = xss ! k ! j"
proof (induction xss arbitrary: k)
  case Nil
  then show ?case by simp
next
  case (Cons x xss)
  show ?case
  proof (cases k)
    case 0
    with Cons.prems show ?thesis by (simp add: nth_append)
  next
    case (Suc k')
    with Cons.prems have "concat xss ! (4 * k' + j) = xss ! k' ! j"
      by (intro Cons.IH) auto
    with Suc Cons.prems show ?thesis by (simp add: nth_append)
  qed
qed

lemma length_enumerate_from [simp]: "length (enumerate_from s xs) = length xs"
  unfolding enumerate_from_def by (simp del: upt_Suc)

lemma nth_enumerate_from [simp]:
  "k < length xs \<Longrightarrow> enumerate_from s xs ! k = (s + k, xs ! k)"
  unfolding enumerate_from_def by (simp del: upt_Suc)

lemma summary_lines_reasoning:
  assumes "k < length (slice_last 5 ds)"
  shows "summary_lines ds ! (4 * k + 4)
         = S ''Reasoning: '' @ take 200 (reasoning (slice_last 5 ds ! k)) @ S ''...''"
proof -
  let ?xs = "enumerate_from 1 (slice_last 5 ds)"
  let ?blocks = "map (\<lambda>(i, d). decision_lines i d) ?xs"
  have len: "length ?blocks = length (slice_last 5 ds)"
    by simp
  have four: "\<forall>x\<in>set ?blocks. length x = 4"
    by (auto simp: decision_lines_def)
  have "summary_lines ds =
      (S ''Total decisions: '' @ str_nat (length ds) @ S ''\<newline>'') # concat ?blocks"
    by (simp add: summary_lines_def summary_loop_concat)
  moreover have "4 * k + 4 = Suc (4 * k + 3)"
    by simp
  ultimately have "summary_lines ds ! (4 * k + 4) = concat ?blocks ! (4 * k + 3)"
    by (simp only: nth_Cons_Suc)
  also have "\<dots> = ?blocks ! k ! 3"
    using four assms len by (intro concat_nth4) auto
  also have "\<dots> = S ''Reasoning: '' @ take 200 (reasoning (slice_last 5 ds ! k)) @ S ''...''"
    using assms by (simp add: decision_lines_def)
  finally show ?thesis .
qed

subsection \<open>The reasoning excerpt\<close>

text \<open>
  C3, as the code has it. The summary is the join of its lines, and for the \<open>k\<close>-th
  decision it includes, the fourth line of that decision's block is \<open>Reasoning: \<close>,
  then the first \<open>min 200 n\<close> characters of a reasoning of \<open>n\<close> characters, then the
  marker \<open>...\<close>. The marker follows the excerpt always, whatever the length of the
  reasoning: after exactly 200 characters when the reasoning is longer than 200, after
  the whole reasoning otherwise.
\<close>

theorem C3_reasoning_excerpt:
  assumes "k < length (slice_last 5 ds)"
  shows "get_decisions_summary ds = join (S ''\<newline>'') (summary_lines ds)
    \<and> summary_lines ds ! (4 * k + 4)
        = S ''Reasoning: '' @ take 200 (reasoning (slice_last 5 ds ! k)) @ S ''...''
    \<and> length (take 200 (reasoning (slice_last 5 ds ! k)))
        = min 200 (length (reasoning (slice_last 5 ds ! k)))"
proof -
  from assms have "ds \<noteq> []"
    by (auto simp: slice_last_def)
  then have "get_decisions_summary ds = join (S ''\<newline>'') (summary_lines ds)"
    by (simp add: get_decisions_summary_def)
  with summary_lines_reasoning [OF assms] show ?thesis
    by (simp add: min.commute)
qed

text \<open>
  An instance with a reasoning of 250 characters: the excerpt is its first 200
  characters, followed by the marker.
\<close>

theorem C3_reasoning_excerpt_witness:
  "0 < length (slice_last 5
       [sample_decision (S ''Alpha'') (S ''2026-01-01T09:00:00'') SHAREABLE (replicate 250 120) []])
   \<and> summary_lines
        [sample_decision (S ''Alpha'') (S ''2026-01-01T09:00:00'') SHAREABLE (replicate 250 120) []] ! 4
       = S ''Reasoning: '' @ replicate 200 120 @ S ''...''"
  using C3_reasoning_excerpt
    [of 0 "[sample_decision (S ''Alpha'') (S ''2026-01-01T09:00:00'') SHAREABLE (replicate 250 120) []]"]
  by (simp add: slice_last_def sample_decision_def)

text \<open>
  C3, as stated, fails: a reasoning of two characters does not exceed the budget of 200,
  and its line in the summary still ends with the marker.
\<close>

theorem C3_marker_on_short_reasoning:
  "length (S ''ok'') \<le> 200
   \<and> get_decisions_summary
        [sample_decision (S ''Alpha'') (S ''2026-01-01T09:00:00'') SHAREABLE (S ''ok'') []]
       = S ''Total decisions: 1\<newline>\<newline>\<newline>Decision 1: Alpha\<newline>Goal: aim\<newline>Choice: pick\<newline>Reasoning: ok...''"
  by (simp add: summary_eval)

section \<open>The constraint patterns summary\<close>

subsection \<open>First-encountered order\<close>

lemma set_first_encountered [simp]: "set (first_encountered xs) = set xs"
  by (induction xs) auto

lemma distinct_first_encountered [simp]: "distinct (first_encountered xs)"
  by (induction xs) (auto simp: distinct_removeAll)

lemma first_encountered_Nil_iff [simp]: "first_encountered xs = [] \<longleftrightarrow> xs = []"
  by (cases xs) auto

lemma first_encountered_snoc:
  "first_encountered (xs @ [x]) =
     (if x \<in> set xs then first_encountered xs else first_encountered xs @ [x])"
  by (induction xs) auto

lemma first_encountered_map:
  "inj_on f (set xs) \<Longrightarrow> first_encountered (map f xs) = map f (first_encountered xs)"
proof (induction xs)
  case Nil
  then show ?case by simp
next
  case (Cons x xs)
  then have ih: "first_encountered (map f xs) = map f (first_encountered xs)"
    by (simp add: inj_on_def)
  have "removeAll (f x) (map f (first_encountered xs)) = map f (removeAll x (first_encountered xs))"
    using Cons.prems
    by (intro map_removeAll_inj_on [symmetric]) (auto simp: inj_on_def)
  with ih show ?case by simp
qed

lemma count_list_map_inj_on:
  "inj_on f (insert x (set xs)) \<Longrightarrow> count_list (map f xs) (f x) = count_list xs x"
  by (induction xs) (auto simp: inj_on_def)

subsection \<open>The dict of counts\<close>

lemma map_of_keyed [simp]:
  "map_of (map (\<lambda>k. (k, c k)) ks) k = (if k \<in> set ks then Some (c k) else None)"
  by (induction ks) auto

lemma dict_get_keyed:
  "dict_get (map (\<lambda>k. (k, c k)) ks) k d = (if k \<in> set ks then c k else d)"
  by (simp add: dict_get_def)

lemma dict_set_absent:
  "k \<notin> fst ` set m \<Longrightarrow> dict_set m k v = m @ [(k, v)]"
  by (induction m) auto

lemma dict_set_keyed:
  assumes "distinct ks" and "k \<in> set ks"
  shows "dict_set (map (\<lambda>k'. (k', c k')) ks) k v
         = map (\<lambda>k'. (k', if k' = k then v else c k')) ks"
  using assms
proof (induction ks)
  case Nil
  then show ?case by simp
next
  case (Cons a ks)
  show ?case
  proof (cases "a = k")
    case True
    with Cons.prems have "k \<notin> set ks" by simp
    then have "map (\<lambda>k'. (k', c k')) ks = map (\<lambda>k'. (k', if k' = k then v else c k')) ks"
      by (intro map_cong) auto
    with True show ?thesis by simp
  next
    case False
    with Cons show ?thesis by simp
  qed
qed

lemma count_one_more:
  fixes ks :: "'k list"
  defines "T \<equiv> map (\<lambda>k'. (k', count_list ks k')) (first_encountered ks)"
  shows "dict_set T k (dict_get T k 0 + 1) =
     map (\<lambda>k'. (k', count_list (ks @ [k]) k')) (first_encountered (ks @ [k]))"
proof (cases "k \<in> set ks")
  case True
  then have "dict_set T k (dict_get T k 0 + 1) =
      map (\<lambda>k'. (k', if k' = k then count_list ks k + 1 else count_list ks k'))
        (first_encountered ks)"
    unfolding T_def by (simp add: dict_get_keyed dict_set_keyed)
  also have "\<dots> = map (\<lambda>k'. (k', count_list (ks @ [k]) k')) (first_encountered ks)"
    by (rule map_cong) auto
  also have "first_encountered ks = first_encountered (ks @ [k])"
    using True by (simp add: first_encountered_snoc)
  finally show ?thesis .
next
  case False
  then have l: "dict_set T k (dict_get T k 0 + 1) = T @ [(k, 1)]"
    unfolding T_def by (simp add: dict_get_keyed dict_set_absent image_image)
  have a: "map (\<lambda>k'. (k', count_list (ks @ [k]) k')) (first_encountered ks) = T"
    unfolding T_def using False by (intro map_cong) auto
  have b: "count_list (ks @ [k]) k = 1"
    using False by simp
  have f: "first_encountered (ks @ [k]) = first_encountered ks @ [k]"
    using False by (simp add: first_encountered_snoc)
  have "map (\<lambda>k'. (k', count_list (ks @ [k]) k')) (first_encountered (ks @ [k]))
      = T @ [(k, 1)]"
    unfolding f map_append a by (simp only: list.map b)
  with l show ?thesis by (simp only:)
qed

lemma fold_count_pattern:
  "fold count_pattern cs [] =
     map (\<lambda>k. (k, count_list (map constraint_key cs) k))
       (first_encountered (map constraint_key cs))"
proof (induction cs rule: rev_induct)
  case Nil
  then show ?case by simp
next
  case (snoc c cs)
  have "fold count_pattern (cs @ [c]) [] = count_pattern c (fold count_pattern cs [])"
    by simp
  also have "\<dots> = map (\<lambda>k'. (k', count_list (map constraint_key cs @ [constraint_key c]) k'))
      (first_encountered (map constraint_key cs @ [constraint_key c]))"
    unfolding snoc count_pattern_def Let_def by (rule count_one_more)
  finally show ?case by simp
qed

lemma fold_nested:
  "fold (\<lambda>d acc. fold f (g d) acc) ds acc = fold f (concat (map g ds)) acc"
  by (induction ds arbitrary: acc) auto

lemma constraint_patterns_keys:
  "constraint_patterns ds =
     map (\<lambda>k. (k, count_list (map constraint_key (concat (map constraints ds))) k))
       (first_encountered (map constraint_key (concat (map constraints ds))))"
  by (simp add: constraint_patterns_def fold_nested fold_count_pattern)

lemma constraint_patterns_Nil_iff: "constraint_patterns ds = [] \<longleftrightarrow> patterns_of ds = []"
  by (simp add: constraint_patterns_keys patterns_of_def)

subsection \<open>The key text determines category and severity\<close>

lemma constraint_key_text: "constraint_key c = key_text (category c, severity c)"
  by (simp add: constraint_key_def key_text_def)

lemma severity_of_key:
  assumes "40 \<notin> set sev"
  shows "takeWhile (\<lambda>c. c \<noteq> 40) (tl (rev (key_text (cat, sev))))
         = rev sev @ [32, 58, 121, 116, 105, 114, 101, 118, 101, 83]"
proof -
  have "tl (rev (key_text (cat, sev)))
        = rev sev @ [32, 58, 121, 116, 105, 114, 101, 118, 101, 83, 40, 32] @ rev cat"
    by (simp add: key_text_def S_def)
  moreover have "takeWhile (\<lambda>c. c \<noteq> 40)
        (rev sev @ [32, 58, 121, 116, 105, 114, 101, 118, 101, 83, 40, 32] @ rev cat)
      = rev sev @ takeWhile (\<lambda>c. c \<noteq> 40)
          ([32, 58, 121, 116, 105, 114, 101, 118, 101, 83, 40, 32] @ rev cat)"
    using assms by (intro takeWhile_append2) auto
  ultimately show ?thesis
    by simp
qed

lemma key_text_inject:
  assumes "40 \<notin> set s1" and "40 \<notin> set s2"
    and eq: "key_text (c1, s1) = key_text (c2, s2)"
  shows "c1 = c2 \<and> s1 = s2"
proof -
  from severity_of_key [OF assms(1), of c1] severity_of_key [OF assms(2), of c2] eq
  have s: "s1 = s2" by simp
  with eq have "c1 = c2" by (simp add: key_text_def)
  with s show ?thesis by simp
qed

lemma valid_severity_plain: "valid_constraint c \<Longrightarrow> 40 \<notin> set (severity c)"
  by (auto simp: valid_constraint_def severities_def S_def)

lemma key_text_inj_on:
  assumes "\<forall>d\<in>set ds. \<forall>c\<in>set (constraints d). valid_constraint c"
  shows "inj_on key_text (set (patterns_of ds))"
proof (rule inj_onI)
  fix p q
  assume p: "p \<in> set (patterns_of ds)" and q: "q \<in> set (patterns_of ds)"
    and eq: "key_text p = key_text q"
  have plain: "40 \<notin> set (snd r)" if "r \<in> set (patterns_of ds)" for r
  proof -
    from that obtain d c where "d \<in> set ds" and "c \<in> set (constraints d)"
      and "r = (category c, severity c)"
      by (auto simp: patterns_of_def)
    with assms valid_severity_plain [of c] show ?thesis by auto
  qed
  from p q plain have "40 \<notin> set (snd p)" and "40 \<notin> set (snd q)"
    by blast+
  then show "p = q"
    using key_text_inject [of "snd p" "snd q" "fst p" "fst q"] eq by (simp add: prod_eq_iff)
qed

lemma constraint_patterns_pairs:
  assumes "\<forall>d\<in>set ds. \<forall>c\<in>set (constraints d). valid_constraint c"
  shows "constraint_patterns ds =
     map (\<lambda>p. (key_text p, count_list (patterns_of ds) p)) (first_encountered (patterns_of ds))"
proof -
  let ?ps = "patterns_of ds"
  have inj: "inj_on key_text (set ?ps)"
    by (rule key_text_inj_on [OF assms])
  have keys: "map constraint_key (concat (map constraints ds)) = map key_text ?ps"
    by (simp add: patterns_of_def constraint_key_text comp_def)
  have "constraint_patterns ds =
      map (\<lambda>k. (k, count_list (map key_text ?ps) k)) (map key_text (first_encountered ?ps))"
    by (simp only: constraint_patterns_keys keys first_encountered_map [OF inj])
  also have "\<dots> = map (\<lambda>p. (key_text p, count_list (map key_text ?ps) (key_text p)))
      (first_encountered ?ps)"
    by (simp add: comp_def)
  also have "\<dots> = map (\<lambda>p. (key_text p, count_list ?ps p)) (first_encountered ?ps)"
  proof (rule map_cong [OF refl])
    fix p assume "p \<in> set (first_encountered ?ps)"
    then have "insert p (set ?ps) = set ?ps" by auto
    with inj have "count_list (map key_text ?ps) (key_text p) = count_list ?ps p"
      by (intro count_list_map_inj_on) simp
    then show "(key_text p, count_list (map key_text ?ps) (key_text p))
        = (key_text p, count_list ?ps p)" by simp
  qed
  finally show ?thesis .
qed

subsection \<open>The descending stable sort and the rendered lines\<close>

lemma sorted_reverse_mset: "mset (sorted_reverse f xs) = mset xs"
  by (simp add: sorted_reverse_def)

lemma sorted_reverse_descending: "sorted_wrt (\<lambda>a b. f b \<le> f a) (sorted_reverse f xs)"
proof -
  have "sorted (map f (sort_key f (rev xs)))" by simp
  then have "sorted_wrt (\<lambda>a b. f a \<le> f b) (sort_key f (rev xs))"
    by (simp add: sorted_map)
  then show ?thesis
    by (simp add: sorted_reverse_def sorted_wrt_rev)
qed

lemma sorted_reverse_stable:
  "filter (\<lambda>e. f e = n) (sorted_reverse f xs) = filter (\<lambda>e. f e = n) xs"
  by (simp add: sorted_reverse_def rev_filter [symmetric] sort_key_stable)

lemma fold_append_lines:
  "fold (\<lambda>item ls. ls @ [g item]) xs acc = acc @ map g xs"
  by (induction xs arbitrary: acc) auto

lemma summary_of_patterns:
  assumes "patterns_of ds \<noteq> []"
  shows "get_constraints_summary ds =
     join (S ''\<newline>'') (S ''Your most common constraints:''
       # map pattern_line (take 5 (sorted_reverse snd (constraint_patterns ds))))"
proof -
  from assms have "ds \<noteq> []"
    by (auto simp: patterns_of_def)
  moreover from assms have "constraint_patterns ds \<noteq> []"
    by (simp add: constraint_patterns_Nil_iff)
  ultimately show ?thesis
    by (simp add: get_constraints_summary_def Let_def fold_append_lines)
qed

lemmas patterns_eval =
  pattern_decisions_def sample_decision_def sample_constraint_def S_def

text \<open>
  C4. Take decisions whose constraints have a category and a severity of the recording
  form. The dict \<open>constraint_patterns\<close> lists every pair of category and severity that
  occurs among the constraints of all the decisions, in first-encountered order, under
  its key text and with the number of constraints that have this pair. The sorted items
  are a rearrangement of the dict's items, in descending order of the count, and items of
  equal count keep the order they have in the dict. When some decision has a constraint,
  the summary is the heading followed by one bullet line for each of the first five
  sorted items, and the bullet line of a pair reads
  \<open>category (Severity: severity): appears N times\<close> after the bullet sign.
\<close>

theorem C4_constraint_patterns_summary:
  assumes "\<forall>d\<in>set ds. \<forall>c\<in>set (constraints d). valid_constraint c"
  shows "constraint_patterns ds =
       map (\<lambda>p. (key_text p, count_list (patterns_of ds) p)) (first_encountered (patterns_of ds))
   \<and> mset (sorted_reverse snd (constraint_patterns ds)) = mset (constraint_patterns ds)
   \<and> sorted_wrt (\<lambda>a b. snd b \<le> snd a) (sorted_reverse snd (constraint_patterns ds))
   \<and> (\<forall>n. filter (\<lambda>e. snd e = n) (sorted_reverse snd (constraint_patterns ds))
          = filter (\<lambda>e. snd e = n) (constraint_patterns ds))
   \<and> (patterns_of ds \<noteq> [] \<longrightarrow>
        get_constraints_summary ds =
          join (S ''\<newline>'') (S ''Your most common constraints:''
            # map pattern_line (take 5 (sorted_reverse snd (constraint_patterns ds)))))
   \<and> (\<forall>cat sev n. pattern_line (key_text (cat, sev), n) =
          bullet @ S '' '' @ cat @ S '' (Severity: '' @ sev @ S ''): appears ''
            @ str_nat n @ S '' times'')"
proof (intro conjI allI impI)
  show "constraint_patterns ds =
       map (\<lambda>p. (key_text p, count_list (patterns_of ds) p)) (first_encountered (patterns_of ds))"
    by (rule constraint_patterns_pairs [OF assms])
  show "mset (sorted_reverse snd (constraint_patterns ds)) = mset (constraint_patterns ds)"
    by (rule sorted_reverse_mset)
  show "sorted_wrt (\<lambda>a b. snd b \<le> snd a) (sorted_reverse snd (constraint_patterns ds))"
    by (rule sorted_reverse_descending)
  show "filter (\<lambda>e. snd e = n) (sorted_reverse snd (constraint_patterns ds))
          = filter (\<lambda>e. snd e = n) (constraint_patterns ds)" for n
    by (rule sorted_reverse_stable)
  show "get_constraints_summary ds =
          join (S ''\<newline>'') (S ''Your most common constraints:''
            # map pattern_line (take 5 (sorted_reverse snd (constraint_patterns ds))))"
    if "patterns_of ds \<noteq> []"
    by (rule summary_of_patterns [OF that])
  show "pattern_line (key_text (cat, sev), n) =
          bullet @ S '' '' @ cat @ S '' (Severity: '' @ sev @ S ''): appears ''
            @ str_nat n @ S '' times''" for cat sev n
    by (simp add: pattern_line_def key_text_def S_def)
qed

text \<open>
  An instance with ten constraints in two decisions and six patterns. Time/High and
  Risk/Medium both occur twice, and Time/High, met first, is listed first; the sixth
  pattern is not rendered.
\<close>

theorem C4_constraint_patterns_witness:
  "list_all valid_constraint (concat (map constraints pattern_decisions))
   \<and> map fst (constraint_patterns pattern_decisions) =
       map S [''Time (Severity: High)'', ''Cost (Severity: Low)'', ''Risk (Severity: Medium)'',
              ''Other (Severity: Low)'', ''Technical (Severity: High)'',
              ''Emotional (Severity: Low)'']
   \<and> map snd (constraint_patterns pattern_decisions) = [2, 3, 2, 1, 1, 1]
   \<and> get_constraints_summary pattern_decisions =
       S ''Your most common constraints:\<newline>''
       @ bullet @ S '' Cost (Severity: Low): appears 3 times\<newline>''
       @ bullet @ S '' Time (Severity: High): appears 2 times\<newline>''
       @ bullet @ S '' Risk (Severity: Medium): appears 2 times\<newline>''
       @ bullet @ S '' Other (Severity: Low): appears 1 times\<newline>''
       @ bullet @ S '' Technical (Severity: High): appears 1 times''"
proof -
  have valid: "\<forall>d\<in>set pattern_decisions. \<forall>c\<in>set (constraints d). valid_constraint c"
    by (simp add: patterns_eval valid_constraint_def categories_def severities_def)
  have pats: "patterns_of pattern_decisions \<noteq> []"
    by (simp add: patterns_of_def patterns_eval)
  from C4_constraint_patterns_summary [OF valid] pats show ?thesis
    by (simp add: patterns_eval patterns_of_def key_text_def valid_constraint_def
          categories_def severities_def sorted_reverse_def pattern_line_def bullet_def
          str_nat.simps)
qed

subsection \<open>Input without constraints\<close>

lemma fold_no_constraints:
  "\<forall>d\<in>set ds. constraints d = [] \<Longrightarrow>
   fold (\<lambda>decision patterns. fold count_pattern (constraints decision) patterns) ds acc = acc"
  by (induction ds arbitrary: acc) auto

text \<open>
  C7, as the code has it. When no supplied decision has a constraint,
  \<open>_get_constraints_summary\<close> returns one of two fixed placeholders, neither of them
  empty: \<open>No constraints recorded yet.\<close> for the empty sequence of decisions, and
  \<open>No constraint patterns found.\<close> for a sequence that is not empty.
\<close>

theorem C7_placeholders_without_constraints:
  "\<forall>d\<in>set ds. constraints d = [] \<Longrightarrow>
     get_constraints_summary ds =
       (if ds = [] then S ''No constraints recorded yet.'' else S ''No constraint patterns found.'')
     \<and> get_constraints_summary ds \<noteq> []"
  by (simp add: get_constraints_summary_def constraint_patterns_def fold_no_constraints S_def)

theorem C7_placeholders_witness:
  "constraints (sample_decision (S ''Alpha'') (S ''2026-01-01T09:00:00'') SHAREABLE (S ''ok'') []) = []
   \<and> get_constraints_summary
        [sample_decision (S ''Alpha'') (S ''2026-01-01T09:00:00'') SHAREABLE (S ''ok'') []]
       = S ''No constraint patterns found.''"
  using C7_placeholders_without_constraints
    [of "[sample_decision (S ''Alpha'') (S ''2026-01-01T09:00:00'') SHAREABLE (S ''ok'') []]"]
  by (simp add: sample_decision_def)

text \<open>
  C7, as stated, fails: the placeholder is not a single one. The empty sequence and a
  sequence of one decision without constraints are both inputs without any constraint,
  and they get two different texts.
\<close>

theorem C7_two_placeholders:
  "constraints (sample_decision (S ''Alpha'') (S ''2026-01-01T09:00:00'') SHAREABLE (S ''ok'') []) = []
   \<and> get_constraints_summary [] = S ''No constraints recorded yet.''
   \<and> get_constraints_summary
        [sample_decision (S ''Alpha'') (S ''2026-01-01T09:00:00'') SHAREABLE (S ''ok'') []]
       = S ''No constraint patterns found.''
   \<and> get_constraints_summary []
       \<noteq> get_constraints_summary
           [sample_decision (S ''Alpha'') (S ''2026-01-01T09:00:00'') SHAREABLE (S ''ok'') []]"
  by (simp add: get_constraints_summary_def constraint_patterns_def sample_decision_def S_def)

section \<open>The chat context and the privacy layer\<close>

text \<open>
  C1. \<open>render_ai_insights\<close> lists the store without a layer and summarises what it gets.
  Two stores that hold the same SHAREABLE decision, one of them with a PRIVATE decision
  besides, agree on their SHAREABLE listing and get different contexts: the title,
  goal, choice and reasoning of the PRIVATE decision (Salary) and its constraint pattern
  are in the texts handed to the chat service.
\<close>

theorem C1_private_decision_reaches_context:
  "get_all_decisions store_shared (Some SHAREABLE) = get_all_decisions store_mixed (Some SHAREABLE)
   \<and> render_ai_insights True store_shared =
       Some (S ''Total decisions: 1\<newline>\<newline>\<newline>Decision 1: Alpha\<newline>Goal: aim\<newline>Choice: pick\<newline>Reasoning: ok...'',
             S ''No constraint patterns found.'')
   \<and> render_ai_insights True store_mixed =
       Some (S ''Total decisions: 2\<newline>\<newline>\<newline>Decision 1: Salary\<newline>Goal: aim\<newline>Choice: pick\<newline>Reasoning: secret...\<newline>\<newline>Decision 2: Alpha\<newline>Goal: aim\<newline>Choice: pick\<newline>Reasoning: ok...'',
             S ''Your most common constraints:\<newline>'' @ bullet
               @ S '' Cost (Severity: High): appears 1 times'')"
  by (simp add: store_shared_def store_mixed_def render_ai_insights_def summary_eval
        get_all_decisions_def sorted_reverse_def get_constraints_summary_def
        constraint_patterns_def count_pattern_def constraint_key_def dict_get_def
        pattern_line_def bullet_def)

section \<open>The reflection service\<close>

subsection \<open>The text sent to the service\<close>

lemma sublist_skip: "sublist xs ys \<Longrightarrow> sublist xs (p @ ys)"
  unfolding sublist_def by (metis append.assoc)

lemma sublist_hit: "sublist (l @ v) (l @ v @ rest)"
  by (metis append.assoc sublist_append_rightI)

lemma history_text_split:
  "decision_history_text d nr =
     S ''\<newline>        '' @ S ''Decision: '' @ title d @
     S ''\<newline>        '' @ S ''Goal: '' @ goal d @
     S ''\<newline>        '' @ S ''Description: '' @ description d @
     S ''\<newline>        '' @ S ''Final Choice: '' @ final_choice d @
     S ''\<newline>        '' @ S ''Reasoning: '' @ reasoning d @
     S ''\<newline>        '' @ S ''Expected Outcome: '' @ format_optional (expected_outcome d) @
     S ''\<newline>        '' @ S ''Constraints: '' @ join (S '', '') (map c_description (constraints d)) @
     S ''\<newline>        '' @ S ''Alternatives Considered: '' @ join (S '', '') (map a_option (alternatives d)) @
     S ''\<newline>        '' @ S ''Reflection: '' @ nr @
     S ''\<newline>        ''"
  by (simp add: decision_history_text_def S_def)

text \<open>
  C9. The text built for the reflection service from a decision \<open>d\<close> and the draft
  reflection \<open>nr\<close> contains, each after its label, the title, the goal, the description,
  the final choice and the reasoning of \<open>d\<close>, its expected outcome (the text \<open>None\<close> when
  the decision has none), the descriptions of all its constraints and the options of all
  its alternatives (each list joined by a comma and a blank), and the draft reflection.
  It is a function of this one decision and the draft only.
\<close>

theorem C9_history_text_fields:
  "sublist (S ''Decision: '' @ title d) (decision_history_text d nr)
   \<and> sublist (S ''Goal: '' @ goal d) (decision_history_text d nr)
   \<and> sublist (S ''Description: '' @ description d) (decision_history_text d nr)
   \<and> sublist (S ''Final Choice: '' @ final_choice d) (decision_history_text d nr)
   \<and> sublist (S ''Reasoning: '' @ reasoning d) (decision_history_text d nr)
   \<and> (\<forall>outcome. expected_outcome d = Some outcome \<longrightarrow>
         sublist (S ''Expected Outcome: '' @ outcome) (decision_history_text d nr))
   \<and> (expected_outcome d = None \<longrightarrow>
         sublist (S ''Expected Outcome: None'') (decision_history_text d nr))
   \<and> sublist (S ''Constraints: '' @ join (S '', '') (map c_description (constraints d)))
        (decision_history_text d nr)
   \<and> sublist (S ''Alternatives Considered: '' @ join (S '', '') (map a_option (alternatives d)))
        (decision_history_text d nr)
   \<and> sublist (S ''Reflection: '' @ nr) (decision_history_text d nr)"
proof -
  have outcome: "sublist (S ''Expected Outcome: '' @ format_optional (expected_outcome d))
      (decision_history_text d nr)"
    unfolding history_text_split by ((rule sublist_hit | rule sublist_skip)+)
  have some: "sublist (S ''Expected Outcome: '' @ outcome) (decision_history_text d nr)"
    if "expected_outcome d = Some outcome" for outcome
    using outcome that by (simp add: format_optional_def)
  have none: "sublist (S ''Expected Outcome: None'') (decision_history_text d nr)"
    if "expected_outcome d = None"
    using outcome that by (simp add: format_optional_def S_def)
  have rest: "sublist (S ''Decision: '' @ title d) (decision_history_text d nr)
   \<and> sublist (S ''Goal: '' @ goal d) (decision_history_text d nr)
   \<and> sublist (S ''Description: '' @ description d) (decision_history_text d nr)
   \<and> sublist (S ''Final Choice: '' @ final_choice d) (decision_history_text d nr)
   \<and> sublist (S ''Reasoning: '' @ reasoning d) (decision_history_text d nr)
   \<and> sublist (S ''Constraints: '' @ join (S '', '') (map c_description (constraints d)))
        (decision_history_text d nr)
   \<and> sublist (S ''Alternatives Considered: '' @ join (S '', '') (map a_option (alternatives d)))
        (decision_history_text d nr)
   \<and> sublist (S ''Reflection: '' @ nr) (decision_history_text d nr)"
    unfolding history_text_split
    by (intro conjI; (rule sublist_hit | rule sublist_skip)+)
  from rest some none show ?thesis by blast
qed

text \<open>
  An instance: a decision with the expected outcome \<open>save\<close>, two constraints and two
  alternatives, and the draft \<open>so far\<close>. The whole text is computed.
\<close>

theorem C9_history_text_witness:
  "expected_outcome saving_decision = Some (S ''save'')
   \<and> sublist (S ''Expected Outcome: save'') (decision_history_text saving_decision (S ''so far''))
   \<and> decision_history_text saving_decision (S ''so far'') =
       S ''\<newline>        Decision: Car\<newline>        Goal: commute\<newline>        Description: buy or lease\<newline>        Final Choice: buy\<newline>        Reasoning: cheaper\<newline>        Expected Outcome: save\<newline>        Constraints: budget, one month\<newline>        Alternatives Considered: lease, bus\<newline>        Reflection: so far\<newline>        ''"
proof -
  have whole: "decision_history_text saving_decision (S ''so far'') =
       S ''\<newline>        Decision: Car\<newline>        Goal: commute\<newline>        Description: buy or lease\<newline>        Final Choice: buy\<newline>        Reasoning: cheaper\<newline>        Expected Outcome: save\<newline>        Constraints: budget, one month\<newline>        Alternatives Considered: lease, bus\<newline>        Reflection: so far\<newline>        ''"
    by (simp add: decision_history_text_def saving_decision_def format_optional_def S_def)
  have some: "expected_outcome saving_decision = Some (S ''save'')"
    by (simp add: saving_decision_def)
  from C9_history_text_fields [of saving_decision "S ''so far''"] some
  have "sublist (S ''Expected Outcome: '' @ S ''save'')
      (decision_history_text saving_decision (S ''so far''))"
    by blast
  then have "sublist (S ''Expected Outcome: save'')
      (decision_history_text saving_decision (S ''so far''))"
    by (simp add: S_def)
  with whole some show ?thesis by simp
qed

subsection \<open>Failures of the model call\<close>




subsection \<open>The failure check of the caller\<close>

lemma sublist_map_iff:
  "sublist w (map f r) \<longleftrightarrow> (\<exists>pre mid post. r = pre @ mid @ post \<and> map f mid = w)"
proof
  assume "sublist w (map f r)"
  then obtain ps ss where "map f r = ps @ w @ ss"
    unfolding sublist_def by blast
  then obtain pre rest where r1: "r = pre @ rest" and r2: "w @ ss = map f rest"
    unfolding map_eq_append_conv by blast
  from r2 obtain mid post where "rest = mid @ post" and "w = map f mid"
    unfolding append_eq_map_conv by blast
  with r1 show "\<exists>pre mid post. r = pre @ mid @ post \<and> map f mid = w" by blast
next
  assume "\<exists>pre mid post. r = pre @ mid @ post \<and> map f mid = w"
  then obtain pre mid post where "r = pre @ mid @ post" and "map f mid = w" by blast
  then have "map f r = map f pre @ w @ map f post" by simp
  then show "sublist w (map f r)" unfolding sublist_def by blast
qed

lemma lower_char_letter:
  "97 \<le> l \<Longrightarrow> l \<le> 122 \<Longrightarrow> lower_char c = l \<longleftrightarrow> c = l \<or> c + 32 = l"
  by (auto simp: lower_char_def)

lemma lower_reads_failed:
  "lower mid = S ''failed'' \<longleftrightarrow>
     (\<exists>c1 c2 c3 c4 c5 c6. mid = [c1, c2, c3, c4, c5, c6]
        \<and> (c1 = 102 \<or> c1 = 70) \<and> (c2 = 97 \<or> c2 = 65) \<and> (c3 = 105 \<or> c3 = 73)
        \<and> (c4 = 108 \<or> c4 = 76) \<and> (c5 = 101 \<or> c5 = 69) \<and> (c6 = 100 \<or> c6 = 68))"
proof -
  have "lower mid = S ''failed'' \<longleftrightarrow>
     (\<exists>c1 c2 c3 c4 c5 c6. mid = [c1, c2, c3, c4, c5, c6]
        \<and> lower_char c1 = 102 \<and> lower_char c2 = 97 \<and> lower_char c3 = 105
        \<and> lower_char c4 = 108 \<and> lower_char c5 = 101 \<and> lower_char c6 = 100)"
    by (auto simp: lower_def S_def map_eq_Cons_conv)
  also have "\<dots> \<longleftrightarrow>
     (\<exists>c1 c2 c3 c4 c5 c6. mid = [c1, c2, c3, c4, c5, c6]
        \<and> (c1 = 102 \<or> c1 = 70) \<and> (c2 = 97 \<or> c2 = 65) \<and> (c3 = 105 \<or> c3 = 73)
        \<and> (c4 = 108 \<or> c4 = 76) \<and> (c5 = 101 \<or> c5 = 69) \<and> (c6 = 100 \<or> c6 = 68))"
    by (simp add: lower_char_letter)
  finally show ?thesis .
qed

text \<open>
  C5. The caller shows a returned text \<open>r\<close> as an error exactly when \<open>r\<close> contains six
  consecutive characters that are f or F, a or A, i or I, l or L, e or E, d or D in this
  order (the code points 102/70, 97/65, 105/73, 108/76, 101/69, 100/68), that is when it
  contains \<open>failed\<close> in any mix of upper and lower case. In every other case, and in no
  other, it shows \<open>r\<close> as an insight and offers to append it to the reflection. So
  \<open>FAILED\<close> and \<open>Request Failed: timeout\<close> are shown as errors, and \<open>All fine\<close> is shown
  as an insight.
\<close>

theorem C5_failed_substring_is_failure:
  "(show_ai_reflection new_reflection r = ErrorShown r)
     = (\<exists>pre c1 c2 c3 c4 c5 c6 post. r = pre @ [c1, c2, c3, c4, c5, c6] @ post
          \<and> (c1 = 102 \<or> c1 = 70) \<and> (c2 = 97 \<or> c2 = 65) \<and> (c3 = 105 \<or> c3 = 73)
          \<and> (c4 = 108 \<or> c4 = 76) \<and> (c5 = 101 \<or> c5 = 69) \<and> (c6 = 100 \<or> c6 = 68))
   \<and> (show_ai_reflection new_reflection r
        = Insight r (new_reflection @ S ''\<newline>\<newline>**AI Insight**: '' @ r))
     = (\<not> (\<exists>pre c1 c2 c3 c4 c5 c6 post. r = pre @ [c1, c2, c3, c4, c5, c6] @ post
          \<and> (c1 = 102 \<or> c1 = 70) \<and> (c2 = 97 \<or> c2 = 65) \<and> (c3 = 105 \<or> c3 = 73)
          \<and> (c4 = 108 \<or> c4 = 76) \<and> (c5 = 101 \<or> c5 = 69) \<and> (c6 = 100 \<or> c6 = 68)))
   \<and> show_ai_reflection new_reflection (S ''FAILED'') = ErrorShown (S ''FAILED'')
   \<and> show_ai_reflection new_reflection (S ''Request Failed: timeout'')
       = ErrorShown (S ''Request Failed: timeout'')
   \<and> show_ai_reflection new_reflection (S ''All fine'')
       = Insight (S ''All fine'') (new_reflection @ S ''\<newline>\<newline>**AI Insight**: All fine'')"
proof -
  have iff: "sublist (S ''failed'') (lower r) \<longleftrightarrow>
      (\<exists>pre c1 c2 c3 c4 c5 c6 post. r = pre @ [c1, c2, c3, c4, c5, c6] @ post
          \<and> (c1 = 102 \<or> c1 = 70) \<and> (c2 = 97 \<or> c2 = 65) \<and> (c3 = 105 \<or> c3 = 73)
          \<and> (c4 = 108 \<or> c4 = 76) \<and> (c5 = 101 \<or> c5 = 69) \<and> (c6 = 100 \<or> c6 = 68))"
    (is "?L \<longleftrightarrow> ?R")
  proof
    assume ?L
    then obtain pre mid post where "r = pre @ mid @ post" and "lower mid = S ''failed''"
      unfolding lower_def sublist_map_iff by blast
    then show ?R
      unfolding lower_reads_failed by blast
  next
    assume ?R
    then obtain pre mid post where "r = pre @ mid @ post" and "lower mid = S ''failed''"
      unfolding lower_reads_failed by blast
    then show ?L
      unfolding lower_def sublist_map_iff by blast
  qed
  have general: "(show_ai_reflection new_reflection r = ErrorShown r) = ?R
      \<and> (show_ai_reflection new_reflection r
           = Insight r (new_reflection @ S ''\<newline>\<newline>**AI Insight**: '' @ r)) = (\<not> ?R)"
    unfolding iff [symmetric] show_ai_reflection_def by simp
  have instances:
    "show_ai_reflection new_reflection (S ''FAILED'') = ErrorShown (S ''FAILED'')
     \<and> show_ai_reflection new_reflection (S ''Request Failed: timeout'')
         = ErrorShown (S ''Request Failed: timeout'')
     \<and> show_ai_reflection new_reflection (S ''All fine'')
         = Insight (S ''All fine'') (new_reflection @ S ''\<newline>\<newline>**AI Insight**: All fine'')"
    by (simp add: show_ai_reflection_def S_def lower_def lower_char_def sublist_Cons_right)
  from general instances show ?thesis by simp
qed

lemma disabled_not_failed:
  "\<not> sublist (S ''failed'') (lower (S ''Reflection AI disabled or API key missing.''))"
  by (simp add: S_def lower_def lower_char_def sublist_Cons_right)

text \<open>
  C10. An object constructed with \<open>enabled=False\<close>, or with no key (or an empty one) in
  the environment, answers every input with \<open>Reflection AI disabled or API key missing.\<close>
  The lowered message does not contain \<open>failed\<close>, so the caller shows it as an insight
  and offers to append it; this is what \<open>render_decision_detail\<close>, which always enables
  the object, does when the key is missing.
\<close>

theorem C10_disabled_message_is_usable:
  assumes "\<not> enabled' \<or> \<not> truthy getenv_key"
  shows "reflect api (GeminiReflectionAI_init enabled' getenv_key) t
       = Inr (S ''Reflection AI disabled or API key missing.'')
     \<and> \<not> sublist (S ''failed'') (lower (S ''Reflection AI disabled or API key missing.''))
     \<and> show_ai_reflection new_reflection (S ''Reflection AI disabled or API key missing.'')
       = Insight (S ''Reflection AI disabled or API key missing.'')
           (new_reflection @ S ''\<newline>\<newline>**AI Insight**: ''
              @ S ''Reflection AI disabled or API key missing.'')
     \<and> (\<not> truthy getenv_key \<longrightarrow>
          get_gemini_reflection api getenv_key decision new_reflection
          = Inr (Insight (S ''Reflection AI disabled or API key missing.'')
              (new_reflection @ S ''\<newline>\<newline>**AI Insight**: ''
                 @ S ''Reflection AI disabled or API key missing.'')))"
proof -
  have r: "reflect api' (GeminiReflectionAI_init e k) t'
      = Inr (S ''Reflection AI disabled or API key missing.'')"
    if "\<not> e \<or> \<not> truthy k" for api' :: "('m, 'r) genai" and e k t'
    using that by (auto simp: reflect_def GeminiReflectionAI_init_def truthy_def)
  have s: "show_ai_reflection new_reflection (S ''Reflection AI disabled or API key missing.'')
       = Insight (S ''Reflection AI disabled or API key missing.'')
           (new_reflection @ S ''\<newline>\<newline>**AI Insight**: ''
              @ S ''Reflection AI disabled or API key missing.'')"
    using disabled_not_failed by (simp add: show_ai_reflection_def)
  from r [OF assms] s disabled_not_failed show ?thesis
    by (simp add: get_gemini_reflection_def r)
qed

theorem C10_disabled_witness:
  "\<not> truthy None
   \<and> reflect failing_api (GeminiReflectionAI_init True None) (S ''text'')
       = Inr (S ''Reflection AI disabled or API key missing.'')
   \<and> get_gemini_reflection failing_api None
        (sample_decision (S ''Alpha'') (S ''2026-01-01T09:00:00'') SHAREABLE (S ''ok'') []) []
       = Inr (Insight (S ''Reflection AI disabled or API key missing.'')
           (S ''\<newline>\<newline>**AI Insight**: ''
              @ S ''Reflection AI disabled or API key missing.''))"
  using C10_disabled_message_is_usable [of True None failing_api "S ''text''" "[]"
      "sample_decision (S ''Alpha'') (S ''2026-01-01T09:00:00'') SHAREABLE (S ''ok'') []"]
  by (simp add: truthy_def)

end
